theory Spec2Isabelle
  imports Complex_Main
begin

section \<open>Circuit construction (\<open>build_zeno_circuit\<close>)\<close>

text \<open>
  The exceptions that the modelled code can raise.  The values of Python floats are
  real numbers here: \<open>np.pi\<close> is \<open>pi\<close>, and the division computing
  \<open>theta\<close> is exact.  The rounding of double precision is not part of the
  construction; the gate semantics below accounts for it as a bounded error of each
  gate application.  The finite range of double precision is part of the construction,
  where it decides whether the code raises.
\<close>

datatype error = ZeroDivisionError | OverflowError | IndexError | ValueError | TypeError
  | InvalidQubit | UnnormalizedState

text \<open>
  The two circuit methods the builder calls, with the source's argument order:
  \<open>qc.ry(theta, qubit)\<close> and \<open>qc.cx(control, target)\<close>.
\<close>

datatype gate = RY real nat | CX nat nat

text \<open>
  \<open>QuantumCircuit(n, m)\<close> has \<open>n\<close> qubits and \<open>m\<close> classical bits; the gates are
  kept in the order of the calls, and \<open>measures\<close> lists the pairs (qubit, classical bit)
  of the final \<open>measure\<close> call.
\<close>

record circuit =
  num_qubits :: nat
  num_clbits :: nat
  gates :: "gate list"
  measures :: "(nat \<times> nat) list"

text \<open>
  The two \<open>for _ in range(n_peeks)\<close> statements, each appending its calls to the circuit
  built so far; the first argument counts the remaining iterations.
\<close>

fun ship_loop :: "nat \<Rightarrow> real \<Rightarrow> gate list \<Rightarrow> gate list" where
  "ship_loop 0 theta qc = qc"
| "ship_loop (Suc k) theta qc = ship_loop k theta (qc @ [RY theta 0, CX 0 1, RY (- theta) 0])"

fun dud_loop :: "nat \<Rightarrow> real \<Rightarrow> gate list \<Rightarrow> gate list" where
  "dud_loop 0 theta qc = qc"
| "dud_loop (Suc k) theta qc = dud_loop k theta (qc @ [RY theta 0, RY (- theta) 0])"

text \<open>
  \<open>range(n_peeks)\<close> is empty for \<open>n_peeks \<le> 0\<close>, hence \<open>nat n_peeks\<close> iterations.
  The division \<open>np.pi / (2 * n_peeks)\<close> of a float by an integer first converts the
  integer to a float, which raises \<open>OverflowError\<close> when the integer rounds to
  \<open>2 ^ 1024\<close> or beyond, that is when its magnitude is at least
  \<open>2 ^ 1024 - 2 ^ 970\<close>; it then raises \<open>ZeroDivisionError\<close> when the divisor is
  zero.  Both happen before any circuit exists.
\<close>

definition build_zeno_circuit :: "int \<Rightarrow> bool \<Rightarrow> error + circuit" where
  "build_zeno_circuit n_peeks is_ship =
     (if 2 ^ 1024 - 2 ^ 970 \<le> \<bar>2 * n_peeks\<bar> then Inl OverflowError
      else if 2 * n_peeks = 0 then Inl ZeroDivisionError
      else
        let theta = pi / real_of_int (2 * n_peeks) in
        if is_ship then
          Inr \<lparr>num_qubits = 2, num_clbits = 2,
               gates = ship_loop (nat n_peeks) theta [],
               measures = [(0, 0), (1, 1)]\<rparr>
        else
          Inr \<lparr>num_qubits = 1, num_clbits = 1,
               gates = dud_loop (nat n_peeks) theta [],
               measures = [(0, 0)]\<rparr>)"

section \<open>Reading a square (\<open>parse_input\<close>)\<close>

text \<open>
  A Python string is a sequence of Unicode code points; a character is modelled by its
  code point.  \<open>getitem\<close> is \<open>s[i]\<close> for a non-negative index, which raises
  \<open>IndexError\<close> past the end; \<open>py_ord\<close> is \<open>ord\<close>, which raises
  \<open>TypeError\<close> unless its argument has exactly one character.
\<close>

type_synonym pystr = "nat list"

definition getitem :: "pystr \<Rightarrow> nat \<Rightarrow> error + nat" where
  "getitem s i = (if i < length s then Inr (s ! i) else Inl IndexError)"

definition py_ord :: "pystr \<Rightarrow> error + int" where
  "py_ord s = (case s of [c] \<Rightarrow> Inr (int c) | _ \<Rightarrow> Inl TypeError)"

text \<open>
  The body of the \<open>try\<close> block.  The two Unicode tables it consults are parameters:
  \<open>upper c\<close> is \<open>str.upper\<close> of the one-character string \<open>c\<close> (it can have
  several characters), and \<open>int_of c\<close> is \<open>int\<close> of the one-character string
  \<open>c\<close>, \<open>None\<close> standing for its \<open>ValueError\<close>.  \<open>ord('A')\<close> is 65.
\<close>

definition parse_input_try ::
    "(nat \<Rightarrow> pystr) \<Rightarrow> (nat \<Rightarrow> int option) \<Rightarrow> pystr \<Rightarrow> error + (int \<times> int)" where
  "parse_input_try upper int_of user_in =
     (case getitem user_in 0 of
        Inl e \<Rightarrow> Inl e
      | Inr c0 \<Rightarrow>
         (case py_ord (upper c0) of
            Inl e \<Rightarrow> Inl e
          | Inr code \<Rightarrow>
             (let col = code - 65 in
              case getitem user_in 1 of
                Inl e \<Rightarrow> Inl e
              | Inr c1 \<Rightarrow>
                 (case int_of c1 of
                    None \<Rightarrow> Inl ValueError
                  | Some d \<Rightarrow>
                     (let row = d - 1 in
                      if \<not> (0 \<le> row \<and> row < 4 \<and> 0 \<le> col \<and> col < 4) then Inl IndexError
                      else Inr (row, col))))))"

text \<open>
  The bare \<open>except:\<close> catches every exception of the body and returns
  \<open>(None, None)\<close>; the message it prints is not modelled.  The result keeps the sum
  type so that an exception reaching the caller would be an \<open>Inl\<close>.
\<close>

definition parse_input ::
    "(nat \<Rightarrow> pystr) \<Rightarrow> (nat \<Rightarrow> int option) \<Rightarrow> pystr \<Rightarrow> error + (int option \<times> int option)" where
  "parse_input upper int_of user_in =
     (case parse_input_try upper int_of user_in of
        Inr (row, col) \<Rightarrow> Inr (Some row, Some col)
      | Inl e \<Rightarrow> Inr (None, None))"

text \<open>The two tables restricted to ASCII, for running the model on concrete inputs.\<close>

definition ascii_upper :: "nat \<Rightarrow> pystr" where
  "ascii_upper c = (if 97 \<le> c \<and> c \<le> 122 then [c - 32] else [c])"

definition ascii_int :: "nat \<Rightarrow> int option" where
  "ascii_int c = (if 48 \<le> c \<and> c \<le> 57 then Some (int c - 48) else None)"

section \<open>Gate semantics and measurement\<close>

text \<open>
  The source hands the built circuit to an external simulator.  What that simulator
  computes is taken from the specification's gate library, state vector engine and
  measurement sampler; for \<open>ry\<close> and \<open>cx\<close> it is the standard matrix semantics
  with qubit 0 as the least significant bit of a basis index.

  The specification asks for double-precision arithmetic.  The gate definitions below
  compute in exact real and complex arithmetic; rounding enters through
  \<open>rounded_gate\<close> and \<open>rounded_run\<close>, which allow every gate application a bounded
  relative error.  Statements about all repetition counts in a range are made for
  rounded runs, up to the tolerance \<open>1e-9\<close> and for repetition counts up to 100000,
  that is for at most 300000 gate applications.
\<close>

text \<open>
  Modelled from the spec: a complex matrix, as the list of its rows.
\<close>

type_synonym matrix = "complex list list"

text \<open>
  Modelled from the spec: \<open>rotation_matrix\<close> of the gate library (the source only
  calls \<open>qc.ry\<close>), with the entries \<open>[[cos(angle/2), -sin(angle/2)],
  [sin(angle/2), cos(angle/2)]]\<close>, here the exact values and not their
  double-precision roundings.
\<close>

definition rotation_matrix :: "real \<Rightarrow> matrix" where
  "rotation_matrix angle =
     [[complex_of_real (cos (angle / 2)), complex_of_real (- sin (angle / 2))],
      [complex_of_real (sin (angle / 2)), complex_of_real (cos (angle / 2))]]"

text \<open>
  Modelled from the spec: the matrix product \<open>\<cdot>\<close> of the gate library's law
  \<open>rotation_matrix(a) \<cdot> rotation_matrix(-a) == identity\<close>, rows times columns.
\<close>

definition mat_mul :: "matrix \<Rightarrow> matrix \<Rightarrow> matrix" where
  "mat_mul A B = map (\<lambda>row. map (\<lambda>col. sum_list (map2 (*) row col)) (transpose B)) A"

text \<open>
  Modelled from the spec: the \<open>identity\<close> of the same law, the \<open>n\<close> by \<open>n\<close>
  matrix with ones on the diagonal.
\<close>

definition identity_matrix :: "nat \<Rightarrow> matrix" where
  "identity_matrix n = map (\<lambda>i. map (\<lambda>j. if i = j then 1 else 0) [0..<n]) [0..<n]"

text \<open>
  Modelled from the spec: the register of the data model, \<open>n\<close> qubits with a complex
  amplitude vector of length \<open>2 ^ n\<close> indexed by the integer whose binary digits are
  the qubit values, qubit 0 being the least significant bit.
\<close>

record register =
  nqubits :: nat
  amplitudes :: "complex list"

text \<open>
  Modelled from the spec: the register created fresh for a circuit evaluation, every
  qubit in basis state 0, so amplitude 1 at index 0 and 0 elsewhere.
\<close>

definition init_register :: "nat \<Rightarrow> register" where
  "init_register n = \<lparr>nqubits = n, amplitudes = 1 # replicate (2 ^ n - 1) 0\<rparr>"

text \<open>
  Modelled from the spec: \<open>apply_single\<close> of the state vector engine.  The matrix acts
  on each pair of amplitudes whose indices differ in bit \<open>qubit_index\<close> only; an index
  outside the register is \<open>InvalidQubit\<close>.  Sums and products are exact, not rounded.
\<close>

definition apply_single :: "register \<Rightarrow> nat \<Rightarrow> matrix \<Rightarrow> error + register" where
  "apply_single reg qubit_index m =
     (if qubit_index \<ge> nqubits reg then Inl InvalidQubit
      else
        let a = amplitudes reg in
        Inr (reg\<lparr>amplitudes :=
          map (\<lambda>i. if bit i qubit_index
                    then m ! 1 ! 0 * a ! (i - 2 ^ qubit_index) + m ! 1 ! 1 * a ! i
                    else m ! 0 ! 0 * a ! i + m ! 0 ! 1 * a ! (i + 2 ^ qubit_index))
              [0..<2 ^ nqubits reg]\<rparr>))"

text \<open>
  Modelled from the spec: \<open>apply_controlled_flip\<close> of the state vector engine.  Basis
  states with the control bit set exchange amplitudes with the state that differs in the
  target bit; the others are untouched.  Equal or out-of-range indices are
  \<open>InvalidQubit\<close>.
\<close>

definition apply_controlled_flip :: "register \<Rightarrow> nat \<Rightarrow> nat \<Rightarrow> error + register" where
  "apply_controlled_flip reg control_index target_index =
     (if control_index \<ge> nqubits reg \<or> target_index \<ge> nqubits reg
         \<or> control_index = target_index then Inl InvalidQubit
      else
        let a = amplitudes reg in
        Inr (reg\<lparr>amplitudes :=
          map (\<lambda>i. if bit i control_index
                    then (if bit i target_index then a ! (i - 2 ^ target_index)
                          else a ! (i + 2 ^ target_index))
                    else a ! i)
              [0..<2 ^ nqubits reg]\<rparr>))"

text \<open>
  Modelled from the spec: the meaning of one gate operation.  \<open>qc.ry(angle, q)\<close> is
  the spec's \<open>Rotation(q, angle)\<close>, applied with \<open>apply_single\<close>;
  \<open>qc.cx(c, t)\<close> is its \<open>ControlledFlip(c, t)\<close>.
\<close>

fun apply_gate :: "register \<Rightarrow> gate \<Rightarrow> error + register" where
  "apply_gate reg (RY angle q) = apply_single reg q (rotation_matrix angle)"
| "apply_gate reg (CX c t) = apply_controlled_flip reg c t"

text \<open>
  Modelled from the spec: the body of \<open>evolve\<close>, applying the gate operations in
  order, left to right, and stopping at the first failure.
\<close>

fun evolve_gates :: "register \<Rightarrow> gate list \<Rightarrow> error + register" where
  "evolve_gates reg [] = Inr reg"
| "evolve_gates reg (g # gs) =
     (case apply_gate reg g of Inl e \<Rightarrow> Inl e | Inr reg' \<Rightarrow> evolve_gates reg' gs)"

text \<open>
  Modelled from the spec: \<open>evolve\<close> of the state vector engine, on a circuit.
\<close>

definition evolve :: "register \<Rightarrow> circuit \<Rightarrow> error + register" where
  "evolve reg qc = evolve_gates reg (gates qc)"


text \<open>
  Modelled from the spec: the measurement outcome of a basis index, a bit string with one
  bit per qubit and qubit 0 rightmost, so that \<open>''10''\<close> is target qubit 1, probe
  qubit 0 (the order in which the source's simulator prints its counts).
\<close>

definition bit_string :: "nat \<Rightarrow> nat \<Rightarrow> string" where
  "bit_string n i = map (\<lambda>k. if bit i k then CHR ''1'' else CHR ''0'') (rev [0..<n])"

text \<open>
  Modelled from the spec: \<open>final_distribution\<close> of the measurement sampler.  The
  probability of an outcome is the squared magnitude of its amplitude; a state whose
  probabilities are further than \<open>1e-9\<close> from summing to 1 is
  \<open>UnnormalizedState\<close>.  The mapping is kept as an association list in index order.
\<close>

definition final_distribution :: "register \<Rightarrow> error + (string \<times> real) list" where
  "final_distribution reg =
     (let probability = map (\<lambda>a. (cmod a)\<^sup>2) (amplitudes reg) in
      if \<bar>sum_list probability - 1\<bar> > 1 / 10 ^ 9 then Inl UnnormalizedState
      else Inr (zip (map (bit_string (nqubits reg)) [0..<2 ^ nqubits reg]) probability))"

text \<open>
  Modelled from the spec: the control flow of a probe up to the measurement, that is
  build the circuit and evolve a fresh all-zero register through it.
\<close>

definition zeno_final_state :: "int \<Rightarrow> bool \<Rightarrow> error + register" where
  "zeno_final_state n_peeks is_ship =
     (case build_zeno_circuit n_peeks is_ship of
        Inl e \<Rightarrow> Inl e
      | Inr qc \<Rightarrow> evolve (init_register (num_qubits qc)) qc)"

text \<open>
  Modelled from the spec: the distribution that the sampler draws from, the final
  distribution of the evolved register.
\<close>

definition zeno_final_distribution :: "int \<Rightarrow> bool \<Rightarrow> error + (string \<times> real) list" where
  "zeno_final_distribution n_peeks is_ship =
     (case zeno_final_state n_peeks is_ship of
        Inl e \<Rightarrow> Inl e
      | Inr reg \<Rightarrow> final_distribution reg)"


subsection \<open>Finite precision\<close>

text \<open>
  Modelled from the spec: the Euclidean length of an amplitude vector, the square root
  of the sum of the squared magnitudes of its entries.
\<close>

definition l2 :: "complex list \<Rightarrow> real" where
  "l2 xs = sqrt (sum_list (map (\<lambda>a. (cmod a)\<^sup>2) xs))"

text \<open>
  Modelled from the spec: one gate application in finite precision.  The specification
  asks for double-precision arithmetic and does not fix the order of the operations.
  What is kept of it is a bound on the rounding: the computed register has the shape of
  the exact one, and its amplitude vector lies within \<open>eps\<close> times the length of the
  input vector of the exact result.  With \<open>eps = 0\<close> this is the exact application.
  Double precision rounds each product and sum of a rotation, its cosine and sine and
  the angle by about \<open>1.1e-16\<close> relative, which stays below \<open>eps = 1e-15\<close>; this
  bound on double precision is taken as given, it is not derived from a model of the
  floating-point format.
\<close>

definition rounded_gate :: "real \<Rightarrow> register \<Rightarrow> gate \<Rightarrow> register \<Rightarrow> bool" where
  "rounded_gate eps reg g reg' =
     (case apply_gate reg g of
        Inl e \<Rightarrow> False
      | Inr exact \<Rightarrow>
          nqubits reg' = nqubits exact
          \<and> length (amplitudes reg') = length (amplitudes exact)
          \<and> l2 (map2 (-) (amplitudes reg') (amplitudes exact)) \<le> eps * l2 (amplitudes reg))"

text \<open>
  Modelled from the spec: a run of a gate list in finite precision.  The list \<open>rs\<close>
  holds the register after each gate, each obtained from the one before by a rounded
  gate application; \<open>last (reg # rs)\<close> is the final register and
  \<open>last (reg # take k rs)\<close> the register after \<open>k\<close> gates.
\<close>

fun rounded_run :: "real \<Rightarrow> register \<Rightarrow> gate list \<Rightarrow> register list \<Rightarrow> bool" where
  "rounded_run eps reg [] rs = (rs = [])"
| "rounded_run eps reg (g # gs) [] = False"
| "rounded_run eps reg (g # gs) (r # rs) =
     (rounded_gate eps reg g r \<and> rounded_run eps r gs rs)"


section \<open>Shape of the built circuits\<close>

lemma ship_loop_append:
  "ship_loop k theta qc = qc @ concat (replicate k [RY theta 0, CX 0 1, RY (- theta) 0])"
proof (induction k arbitrary: qc)
  case 0
  show ?case by simp
next
  case (Suc k)
  have "concat (replicate (Suc k) [RY theta 0, CX 0 1, RY (- theta) 0])
      = [RY theta 0, CX 0 1, RY (- theta) 0] @ concat (replicate k [RY theta 0, CX 0 1, RY (- theta) 0])"
    by simp
  with Suc show ?case by simp
qed

lemma dud_loop_append:
  "dud_loop k theta qc = qc @ concat (replicate k [RY theta 0, RY (- theta) 0])"
proof (induction k arbitrary: qc)
  case 0
  show ?case by simp
next
  case (Suc k)
  have "concat (replicate (Suc k) [RY theta 0, RY (- theta) 0])
      = [RY theta 0, RY (- theta) 0] @ concat (replicate k [RY theta 0, RY (- theta) 0])"
    by simp
  with Suc show ?case by simp
qed

text \<open>
  The circuits that the builder returns for a repetition count \<open>n \<ge> 1\<close> that the
  conversion to float accepts.
\<close>

lemma build_ship:
  assumes "1 \<le> n" and "n < 2 ^ 1023 - 2 ^ 969"
  shows "build_zeno_circuit n True =
    Inr \<lparr>num_qubits = 2, num_clbits = 2,
         gates = concat (replicate (nat n)
           [RY (pi / (2 * real_of_int n)) 0, CX 0 1, RY (- (pi / (2 * real_of_int n))) 0]),
         measures = [(0, 0), (1, 1)]\<rparr>"
proof -
  from assms have "\<not> (2 ^ 1024 - 2 ^ 970 \<le> \<bar>2 * n\<bar>)" and "2 * n \<noteq> 0"
    by simp_all
  then show ?thesis
    by (simp only: build_zeno_circuit_def if_False if_True Let_def ship_loop_append append_Nil)
       simp
qed

lemma build_dud:
  assumes "1 \<le> n" and "n < 2 ^ 1023 - 2 ^ 969"
  shows "build_zeno_circuit n False =
    Inr \<lparr>num_qubits = 1, num_clbits = 1,
         gates = concat (replicate (nat n)
           [RY (pi / (2 * real_of_int n)) 0, RY (- (pi / (2 * real_of_int n))) 0]),
         measures = [(0, 0)]\<rparr>"
proof -
  from assms have "\<not> (2 ^ 1024 - 2 ^ 970 \<le> \<bar>2 * n\<bar>)" and "2 * n \<noteq> 0"
    by simp_all
  then show ?thesis
    by (simp only: build_zeno_circuit_def if_False if_True Let_def dud_loop_append append_Nil)
       simp
qed

lemma build_overflow:
  assumes "2 ^ 1023 - 2 ^ 969 \<le> \<bar>n\<bar>"
  shows "build_zeno_circuit n is_ship = Inl OverflowError"
proof -
  from assms have "2 ^ 1024 - 2 ^ 970 \<le> \<bar>2 * n\<bar>"
    by simp
  then show ?thesis
    by (simp only: build_zeno_circuit_def if_True)
qed

text \<open>
  C5, as stated, fails: for the repetition count \<open>10 ^ 400\<close> the angle computation
  raises \<open>OverflowError\<close> and no circuit is returned.
\<close>

theorem build_zeno_circuit_ship_shape_counterexample:
  "build_zeno_circuit (10 ^ 400) True = Inl OverflowError"
  by (rule build_overflow) simp

text \<open>
  C5, amended.  For every repetition count \<open>n\<close> with
  \<open>1 \<le> n < 2 ^ 1023 - 2 ^ 969\<close> and \<open>is_ship\<close> true, the builder returns a 2-qubit
  circuit whose gate list is exactly \<open>n\<close> consecutive copies of the triple rotation of
  qubit 0 by \<open>angle\<close>, controlled flip with control 0 and target 1, rotation of qubit 0
  by \<open>- angle\<close>, where \<open>angle = pi / (2 * n)\<close>, followed by the measurement of both
  qubits.
\<close>

theorem build_zeno_circuit_ship_shape:
  assumes "1 \<le> n" and "n < 2 ^ 1023 - 2 ^ 969"
  shows "build_zeno_circuit n True =
    Inr \<lparr>num_qubits = 2, num_clbits = 2,
         gates = concat (replicate (nat n)
           [RY (pi / (2 * real_of_int n)) 0, CX 0 1, RY (- (pi / (2 * real_of_int n))) 0]),
         measures = [(0, 0), (1, 1)]\<rparr>"
proof -
  from assms have in_range: "\<not> (2 ^ 1024 - 2 ^ 970 \<le> \<bar>2 * n\<bar>)"
    by simp
  from assms have nonzero: "2 * n \<noteq> 0"
    by simp
  have "ship_loop (nat n) (pi / real_of_int (2 * n)) []
      = concat (replicate (nat n)
          [RY (pi / (2 * real_of_int n)) 0, CX 0 1, RY (- (pi / (2 * real_of_int n))) 0])"
    by (simp add: ship_loop_append)
  with in_range nonzero show ?thesis
    by (simp only: build_zeno_circuit_def if_False if_True Let_def)
qed

theorem build_zeno_circuit_ship_shape_witness:
  "(1::int) \<le> 2 \<and> (2::int) < 2 ^ 1023 - 2 ^ 969 \<and> build_zeno_circuit 2 True =
    Inr \<lparr>num_qubits = 2, num_clbits = 2,
         gates = [RY (pi / 4) 0, CX 0 1, RY (- (pi / 4)) 0,
                  RY (pi / 4) 0, CX 0 1, RY (- (pi / 4)) 0],
         measures = [(0, 0), (1, 1)]\<rparr>"
  using build_zeno_circuit_ship_shape [of 2] by (simp add: numeral_2_eq_2)

text \<open>
  C8, as stated, fails: the builder does not validate its argument.  With
  \<open>n_peeks = -1\<close> it raises nothing and returns a circuit.
\<close>

theorem build_zeno_circuit_no_validation_counterexample:
  "build_zeno_circuit (- 1) True =
     Inr \<lparr>num_qubits = 2, num_clbits = 2, gates = [], measures = [(0, 0), (1, 1)]\<rparr>"
  by (simp add: build_zeno_circuit_def)

text \<open>
  C8, amended.  Called with a repetition count below 1, the builder never reports an
  invalid repetition count.  For 0 it fails with \<open>ZeroDivisionError\<close>, raised by the
  angle computation for either value of \<open>is_ship\<close>; for a count of at most
  \<open>- (2 ^ 1023 - 2 ^ 969)\<close> it fails with \<open>OverflowError\<close>, raised by the same
  computation; for every other negative count it raises nothing and returns a circuit
  with no gates and only the final measurements.
\<close>

theorem build_zeno_circuit_below_one:
  assumes "n < 1"
  shows "build_zeno_circuit n is_ship =
    (if n = 0 then Inl ZeroDivisionError
     else if n \<le> - (2 ^ 1023 - 2 ^ 969) then Inl OverflowError
     else Inr \<lparr>num_qubits = (if is_ship then 2 else 1),
               num_clbits = (if is_ship then 2 else 1),
               gates = [],
               measures = (if is_ship then [(0, 0), (1, 1)] else [(0, 0)])\<rparr>)"
proof (cases "n = 0")
  case True
  then show ?thesis
    by (simp add: build_zeno_circuit_def)
next
  case False
  show ?thesis
  proof (cases "n \<le> - (2 ^ 1023 - 2 ^ 969)")
    case True
    then have "2 ^ 1023 - 2 ^ 969 \<le> \<bar>n\<bar>"
      by simp
    then have "build_zeno_circuit n is_ship = Inl OverflowError"
      by (rule build_overflow)
    with True \<open>n \<noteq> 0\<close> show ?thesis
      by (simp only: if_True if_False)
  next
    case False
    with assms \<open>n \<noteq> 0\<close>
    have "\<not> (2 ^ 1024 - 2 ^ 970 \<le> \<bar>2 * n\<bar>)" and "2 * n \<noteq> 0" and "nat n = 0"
      by simp_all
    then have "build_zeno_circuit n is_ship =
        Inr \<lparr>num_qubits = (if is_ship then 2 else 1),
             num_clbits = (if is_ship then 2 else 1),
             gates = [],
             measures = (if is_ship then [(0, 0), (1, 1)] else [(0, 0)])\<rparr>"
      by (simp only: build_zeno_circuit_def if_False Let_def) simp
    with False \<open>n \<noteq> 0\<close> show ?thesis
      by (simp only: if_False)
  qed
qed

theorem build_zeno_circuit_below_one_witness:
  "(0::int) < 1 \<and> build_zeno_circuit 0 True = Inl ZeroDivisionError
   \<and> (- 5::int) < 1 \<and> build_zeno_circuit (- 5) False =
       Inr \<lparr>num_qubits = 1, num_clbits = 1, gates = [], measures = [(0, 0)]\<rparr>
   \<and> (- (2 ^ 1023)::int) < 1 \<and> build_zeno_circuit (- (2 ^ 1023)) True = Inl OverflowError"
  using build_zeno_circuit_below_one [of 0 True] build_zeno_circuit_below_one [of "- 5" False]
    build_zeno_circuit_below_one [of "- (2 ^ 1023)" True]
  by simp

section \<open>Evolving the circuits\<close>

lemma upt4: "[0..<4] = [0, 1, 2, 3]"
  by (simp add: upt_rec)

lemma upt2: "[0..<2] = [0, 1]"
  by (simp add: upt_rec)

lemmas engine_simps = apply_single_def apply_controlled_flip_def rotation_matrix_def
  Let_def upt4 upt2 bit_0

lemma evolve_gates_append:
  "evolve_gates reg (xs @ ys) =
     (case evolve_gates reg xs of Inl e \<Rightarrow> Inl e | Inr reg' \<Rightarrow> evolve_gates reg' ys)"
  by (induction xs arbitrary: reg) (auto split: sum.splits)

lemma cos_sin_complex:
  "complex_of_real (cos x) * complex_of_real (cos x)
     + complex_of_real (sin x) * complex_of_real (sin x) = 1"
proof -
  have r: "cos x * cos x + sin x * sin x = 1"
    using sin_cos_squared_add2 [of x] by (simp add: power2_eq_square)
  have "complex_of_real (cos x) * complex_of_real (cos x)
     + complex_of_real (sin x) * complex_of_real (sin x)
     = complex_of_real (cos x * cos x + sin x * sin x)"
    by (simp only: of_real_add of_real_mult)
  also have "\<dots> = 1"
    by (simp only: r of_real_1)
  finally show ?thesis .
qed

lemma dud_step:
  "evolve_gates \<lparr>nqubits = 1, amplitudes = [a0, a1]\<rparr> [RY theta 0, RY (- theta) 0]
     = Inr \<lparr>nqubits = 1, amplitudes = [a0, a1]\<rparr>"
proof -
  let ?c = "complex_of_real (cos (theta / 2))" and ?s = "complex_of_real (sin (theta / 2))"
  have 0: "?c * (?c * a0 - ?s * a1) + ?s * (?s * a0 + ?c * a1) = (?c * ?c + ?s * ?s) * a0"
    by (simp add: algebra_simps)
  have 1: "?c * (?s * a0 + ?c * a1) - ?s * (?c * a0 - ?s * a1)  = (?c * ?c + ?s * ?s) * a1"
    by (simp add: algebra_simps)
  show ?thesis
    using 0 1 by (simp add: engine_simps cos_sin_complex)
qed

lemma ship_step:
  "evolve_gates \<lparr>nqubits = 2, amplitudes = [a0, a1, a2, a3]\<rparr>
       [RY theta 0, CX 0 1, RY (- theta) 0]
     = Inr \<lparr>nqubits = 2, amplitudes =
         (let c = complex_of_real (cos (theta / 2)); s = complex_of_real (sin (theta / 2)) in
          [c * (c * a0 - s * a1) + s * (s * a2 + c * a3),
           c * (s * a2 + c * a3) - s * (c * a0 - s * a1),
           c * (c * a2 - s * a3) + s * (s * a0 + c * a1),
           c * (s * a0 + c * a1) - s * (c * a2 - s * a3)])\<rparr>"
  by (simp add: engine_simps)

lemma ship_pair:
  "evolve_gates \<lparr>nqubits = 2, amplitudes = [a0, a1, a2, a3]\<rparr>
       ([RY theta 0, CX 0 1, RY (- theta) 0] @ [RY theta 0, CX 0 1, RY (- theta) 0])
     = Inr \<lparr>nqubits = 2, amplitudes = [a0, a1, a2, a3]\<rparr>"
proof -
  define c where "c = complex_of_real (cos (theta / 2))"
  define s where "s = complex_of_real (sin (theta / 2))"
  have cs: "c * c + s * s = 1"
    unfolding c_def s_def by (rule cos_sin_complex)
  have e0: "c * (c * (c * (c * a0 - s * a1) + s * (s * a2 + c * a3))
                 - s * (c * (s * a2 + c * a3) - s * (c * a0 - s * a1)))
            + s * (s * (c * (c * a2 - s * a3) + s * (s * a0 + c * a1))
                 + c * (c * (s * a0 + c * a1) - s * (c * a2 - s * a3)))
            = (c * c + s * s) * (c * c + s * s) * a0"
    by (simp add: algebra_simps)
  have e1: "c * (s * (c * (c * a2 - s * a3) + s * (s * a0 + c * a1))
                 + c * (c * (s * a0 + c * a1) - s * (c * a2 - s * a3)))
            - s * (c * (c * (c * a0 - s * a1) + s * (s * a2 + c * a3))
                 - s * (c * (s * a2 + c * a3) - s * (c * a0 - s * a1)))
            = (c * c + s * s) * (c * c + s * s) * a1"
    by (simp add: algebra_simps)
  have e2: "c * (c * (c * (c * a2 - s * a3) + s * (s * a0 + c * a1))
                 - s * (c * (s * a0 + c * a1) - s * (c * a2 - s * a3)))
            + s * (s * (c * (c * a0 - s * a1) + s * (s * a2 + c * a3))
                 + c * (c * (s * a2 + c * a3) - s * (c * a0 - s * a1)))
            = (c * c + s * s) * (c * c + s * s) * a2"
    by (simp add: algebra_simps)
  have e3: "c * (s * (c * (c * a0 - s * a1) + s * (s * a2 + c * a3))
                 + c * (c * (s * a2 + c * a3) - s * (c * a0 - s * a1)))
            - s * (c * (c * (c * a2 - s * a3) + s * (s * a0 + c * a1))
                 - s * (c * (s * a0 + c * a1) - s * (c * a2 - s * a3)))
            = (c * c + s * s) * (c * c + s * s) * a3"
    by (simp add: algebra_simps)
  show ?thesis
    apply (simp only: evolve_gates_append ship_step Let_def sum.case)
    apply (fold c_def s_def)
    apply (simp only: e0 e1 e2 e3 cs mult_1)
    done
qed

lemma ship_even:
  "evolve_gates \<lparr>nqubits = 2, amplitudes = [a0, a1, a2, a3]\<rparr>
     (concat (replicate (2 * k) [RY theta 0, CX 0 1, RY (- theta) 0]))
   = Inr \<lparr>nqubits = 2, amplitudes = [a0, a1, a2, a3]\<rparr>"
proof (induction k)
  case 0
  show ?case by simp
next
  case (Suc k)
  have "concat (replicate (2 * Suc k) [RY theta 0, CX 0 1, RY (- theta) 0])
      = ([RY theta 0, CX 0 1, RY (- theta) 0] @ [RY theta 0, CX 0 1, RY (- theta) 0])
        @ concat (replicate (2 * k) [RY theta 0, CX 0 1, RY (- theta) 0])"
    by simp
  then show ?case
    by (simp only: evolve_gates_append [of _ "_ @ _"] ship_pair sum.case Suc.IH)
qed

lemma concat_replicate_Suc_right:
  "concat (replicate (Suc n) xs) = concat (replicate n xs) @ xs"
  by (induction n) simp_all

lemma ship_odd:
  "evolve_gates \<lparr>nqubits = 2, amplitudes = [a0, a1, a2, a3]\<rparr>
     (concat (replicate (Suc (2 * k)) [RY theta 0, CX 0 1, RY (- theta) 0]))
   = evolve_gates \<lparr>nqubits = 2, amplitudes = [a0, a1, a2, a3]\<rparr>
       [RY theta 0, CX 0 1, RY (- theta) 0]"
proof -
  have "concat (replicate (Suc (2 * k)) [RY theta 0, CX 0 1, RY (- theta) 0])
      = concat (replicate (2 * k) [RY theta 0, CX 0 1, RY (- theta) 0])
        @ [RY theta 0, CX 0 1, RY (- theta) 0]"
    by (rule concat_replicate_Suc_right)
  then show ?thesis
    by (simp only: evolve_gates_append ship_even sum.case)
qed

lemma dud_all:
  "evolve_gates \<lparr>nqubits = 1, amplitudes = [a0, a1]\<rparr>
     (concat (replicate k [RY theta 0, RY (- theta) 0]))
   = Inr \<lparr>nqubits = 1, amplitudes = [a0, a1]\<rparr>"
proof (induction k)
  case 0
  show ?case by simp
next
  case (Suc k)
  have "concat (replicate (Suc k) [RY theta 0, RY (- theta) 0])
      = [RY theta 0, RY (- theta) 0] @ concat (replicate k [RY theta 0, RY (- theta) 0])"
    by simp
  then show ?case
    by (simp only: evolve_gates_append dud_step sum.case Suc.IH)
qed

lemma init_register_2: "init_register 2 = \<lparr>nqubits = 2, amplitudes = [1, 0, 0, 0]\<rparr>"
  by (simp add: init_register_def numeral_eq_Suc)

lemma init_register_1: "init_register 1 = \<lparr>nqubits = 1, amplitudes = [1, 0]\<rparr>"
  by (simp add: init_register_def)

lemma ship_final_state:
  assumes n1: "1 \<le> n" and nr: "n < 2 ^ 1023 - 2 ^ 969"
  shows "zeno_final_state n True =
    Inr \<lparr>nqubits = 2, amplitudes =
      (if even n then [1, 0, 0, 0]
       else [complex_of_real (cos (pi / (4 * real_of_int n)) * cos (pi / (4 * real_of_int n))),
             complex_of_real (- (cos (pi / (4 * real_of_int n)) * sin (pi / (4 * real_of_int n)))),
             complex_of_real (sin (pi / (4 * real_of_int n)) * sin (pi / (4 * real_of_int n))),
             complex_of_real (cos (pi / (4 * real_of_int n)) * sin (pi / (4 * real_of_int n)))])\<rparr>"
proof -
  let ?t = "pi / (2 * real_of_int n)"
  have st: "zeno_final_state n True =
      evolve_gates \<lparr>nqubits = 2, amplitudes = [1, 0, 0, 0]\<rparr>
        (concat (replicate (nat n) [RY ?t 0, CX 0 1, RY (- ?t) 0]))"
    by (simp only: zeno_final_state_def build_ship [OF n1 nr] sum.case evolve_def
        circuit.simps init_register_2)
  have half: "?t / 2 = pi / (4 * real_of_int n)"
    by simp
  show ?thesis
  proof (cases "even n")
    case True
    then obtain k where "nat n = 2 * k"
      using n1 by (metis evenE even_nat_iff zero_le_one order_trans)
    then show ?thesis
      using True by (simp only: st ship_even if_True)
  next
    case False
    then obtain k where "nat n = Suc (2 * k)"
      using n1 by (metis oddE even_nat_iff zero_le_one order_trans Suc_eq_plus1)
    then have "zeno_final_state n True =
        evolve_gates \<lparr>nqubits = 2, amplitudes = [1, 0, 0, 0]\<rparr> [RY ?t 0, CX 0 1, RY (- ?t) 0]"
      by (simp only: st ship_odd)
    then show ?thesis
      using False by (simp only: ship_step Let_def half) simp
  qed
qed

lemma dud_final_state:
  assumes "1 \<le> n" and "n < 2 ^ 1023 - 2 ^ 969"
  shows "zeno_final_state n False = Inr \<lparr>nqubits = 1, amplitudes = [1, 0]\<rparr>"
  by (simp only: zeno_final_state_def build_dud [OF assms] evolve_def sum.case circuit.simps
      init_register_1 dud_all)

lemma distribution_2:
  assumes "(x0 * x0 + x1 * x1) + (x2 * x2 + x3 * x3) = (1::real)"
  shows "final_distribution \<lparr>nqubits = 2, amplitudes =
      [complex_of_real x0, complex_of_real x1, complex_of_real x2, complex_of_real x3]\<rparr>
    = Inr [(''00'', x0\<^sup>2), (''01'', x1\<^sup>2), (''10'', x2\<^sup>2), (''11'', x3\<^sup>2)]"
proof -
  have "x0\<^sup>2 + (x1\<^sup>2 + (x2\<^sup>2 + x3\<^sup>2)) = 1"
    using assms by (simp add: power2_eq_square)
  then show ?thesis
    by (simp add: final_distribution_def Let_def upt4 upt2 bit_string_def bit_0)
qed

lemma distribution_1:
  assumes "x0 * x0 + x1 * x1 = (1::real)"
  shows "final_distribution \<lparr>nqubits = 1, amplitudes =
      [complex_of_real x0, complex_of_real x1]\<rparr>
    = Inr [(''0'', x0\<^sup>2), (''1'', x1\<^sup>2)]"
proof -
  have "x0\<^sup>2 + x1\<^sup>2 = 1"
    using assms by (simp add: power2_eq_square)
  then show ?thesis
    by (simp add: final_distribution_def Let_def upt2 bit_string_def bit_0)
qed

lemma ship_final_distribution:
  assumes "1 \<le> n" and "n < 2 ^ 1023 - 2 ^ 969"
  shows "zeno_final_distribution n True =
    Inr [(''00'', if even n then 1 else (cos (pi / (4 * real_of_int n))) ^ 4),
         (''01'', if even n then 0
                  else (cos (pi / (4 * real_of_int n)) * sin (pi / (4 * real_of_int n)))\<^sup>2),
         (''10'', if even n then 0 else (sin (pi / (4 * real_of_int n))) ^ 4),
         (''11'', if even n then 0
                  else (cos (pi / (4 * real_of_int n)) * sin (pi / (4 * real_of_int n)))\<^sup>2)]"
proof (cases "even n")
  case True
  have "final_distribution \<lparr>nqubits = 2, amplitudes =
      [complex_of_real 1, complex_of_real 0, complex_of_real 0, complex_of_real 0]\<rparr>
    = Inr [(''00'', 1\<^sup>2), (''01'', 0\<^sup>2), (''10'', 0\<^sup>2), (''11'', 0\<^sup>2)]"
    by (rule distribution_2) simp
  then show ?thesis
    using True by (simp add: zeno_final_distribution_def ship_final_state [OF assms])
next
  case False
  define c where "c = cos (pi / (4 * real_of_int n))"
  define s where "s = sin (pi / (4 * real_of_int n))"
  have cs: "c * c + s * s = 1"
    unfolding c_def s_def using sin_cos_squared_add2 [of "pi / (4 * real_of_int n)"]
    by (simp add: power2_eq_square)
  have "(c * c) * (c * c) + (- (c * s)) * (- (c * s)) + ((s * s) * (s * s) + (c * s) * (c * s))
      = (c * c + s * s) * (c * c + s * s)"
    by (simp add: algebra_simps)
  then have "(c * c) * (c * c) + (- (c * s)) * (- (c * s)) + ((s * s) * (s * s) + (c * s) * (c * s)) = 1"
    by (simp only: cs mult_1)
  then have "final_distribution \<lparr>nqubits = 2, amplitudes =
      [complex_of_real (c * c), complex_of_real (- (c * s)),
       complex_of_real (s * s), complex_of_real (c * s)]\<rparr>
    = Inr [(''00'', (c * c)\<^sup>2), (''01'', (- (c * s))\<^sup>2), (''10'', (s * s)\<^sup>2), (''11'', (c * s)\<^sup>2)]"
    by (rule distribution_2)
  moreover have "(c * c)\<^sup>2 = c ^ 4" "(s * s)\<^sup>2 = s ^ 4" "(- (c * s))\<^sup>2 = (c * s)\<^sup>2"
    by (simp_all add: power2_eq_square power4_eq_xxxx)
  ultimately show ?thesis
    using False
    by (simp only: zeno_final_distribution_def ship_final_state [OF assms] sum.case if_False
        c_def s_def)
qed

lemma dud_final_distribution:
  assumes "1 \<le> n" and "n < 2 ^ 1023 - 2 ^ 969"
  shows "zeno_final_distribution n False = Inr [(''0'', 1), (''1'', 0)]"
proof -
  have "final_distribution \<lparr>nqubits = 1, amplitudes = [complex_of_real 1, complex_of_real 0]\<rparr>
    = Inr [(''0'', 1\<^sup>2), (''1'', 0\<^sup>2)]"
    by (rule distribution_1) simp
  then show ?thesis
    by (simp add: zeno_final_distribution_def dud_final_state [OF assms])
qed



text \<open>
  C9, as stated, fails: for the negative repetition count \<open>- (2 ^ 1023)\<close> the angle
  computation raises \<open>OverflowError\<close>.
\<close>

theorem build_zeno_circuit_negative_counterexample:
  "build_zeno_circuit (- (2 ^ 1023)) True = Inl OverflowError"
  by (rule build_overflow) simp

text \<open>
  C9, amended.  For every negative repetition count \<open>n\<close> with
  \<open>- (2 ^ 1023 - 2 ^ 969) < n \<le> -1\<close> and either value of \<open>is_ship\<close>, the builder
  raises no error and returns a circuit with no gates, only the final measurements,
  because the body of the \<open>for\<close> statement runs zero times; measuring it from the
  all-zero state gives the all-zero bit string with probability 1.
\<close>

theorem build_zeno_circuit_negative:
  assumes "n \<le> - 1" and "- (2 ^ 1023 - 2 ^ 969) < n"
  shows "build_zeno_circuit n is_ship =
      Inr \<lparr>num_qubits = (if is_ship then 2 else 1),
           num_clbits = (if is_ship then 2 else 1),
           gates = [],
           measures = (if is_ship then [(0, 0), (1, 1)] else [(0, 0)])\<rparr>
    \<and> zeno_final_distribution n is_ship =
      Inr (if is_ship then [(''00'', 1), (''01'', 0), (''10'', 0), (''11'', 0)]
           else [(''0'', 1), (''1'', 0)])"
proof -
  from assms
  have "\<not> (2 ^ 1024 - 2 ^ 970 \<le> \<bar>2 * n\<bar>)" and "2 * n \<noteq> 0" and "nat n = 0"
    by simp_all
  then have b: "build_zeno_circuit n f =
      Inr \<lparr>num_qubits = (if f then 2 else 1),
           num_clbits = (if f then 2 else 1),
           gates = [],
           measures = (if f then [(0, 0), (1, 1)] else [(0, 0)])\<rparr>" for f
    by (simp only: build_zeno_circuit_def if_False Let_def) simp
  have d2: "final_distribution \<lparr>nqubits = 2, amplitudes =
      [complex_of_real 1, complex_of_real 0, complex_of_real 0, complex_of_real 0]\<rparr>
    = Inr [(''00'', 1\<^sup>2), (''01'', 0\<^sup>2), (''10'', 0\<^sup>2), (''11'', 0\<^sup>2)]"
    by (rule distribution_2) simp
  have d1: "final_distribution \<lparr>nqubits = 1, amplitudes = [complex_of_real 1, complex_of_real 0]\<rparr>
    = Inr [(''0'', 1\<^sup>2), (''1'', 0\<^sup>2)]"
    by (rule distribution_1) simp
  have "zeno_final_distribution n is_ship =
      Inr (if is_ship then [(''00'', 1), (''01'', 0), (''10'', 0), (''11'', 0)]
           else [(''0'', 1), (''1'', 0)])"
  proof (cases is_ship)
    case True
    with d2 show ?thesis
      by (simp add: zeno_final_distribution_def zeno_final_state_def b [of True] evolve_def
          init_register_2)
  next
    case False
    with d1 show ?thesis
      by (simp add: zeno_final_distribution_def zeno_final_state_def b [of False] evolve_def
          init_register_def)
  qed
  with b [of is_ship] show ?thesis by simp
qed

theorem build_zeno_circuit_negative_witness:
  "(- 3::int) \<le> - 1 \<and> (- (2 ^ 1023 - 2 ^ 969)::int) < - 3
   \<and> build_zeno_circuit (- 3) True =
       Inr \<lparr>num_qubits = 2, num_clbits = 2, gates = [], measures = [(0, 0), (1, 1)]\<rparr>
   \<and> zeno_final_distribution (- 3) True =
       Inr [(''00'', 1), (''01'', 0), (''10'', 0), (''11'', 0)]"
  using build_zeno_circuit_negative [of "- 3" True] by simp

lemma quarter_pi_powers:
  "cos (pi / 4) ^ 4 = 1 / 4" "sin (pi / 4) ^ 4 = 1 / 4"
  "(cos (pi / 4) * sin (pi / 4))\<^sup>2 = 1 / 4"
  by (simp_all add: cos_45 sin_45 power4_eq_xxxx power2_eq_square)

text \<open>
  C2.  With one repetition the two-qubit circuit of an occupied square ends in the
  uniform distribution: each of \<open>''00''\<close>, \<open>''01''\<close>, \<open>''10''\<close>, \<open>''11''\<close>
  has probability exactly 1/4, hence within any tolerance of 0.25.
\<close>

theorem ship_uniform_at_1:
  "zeno_final_distribution 1 True =
     Inr [(''00'', 1 / 4), (''01'', 1 / 4), (''10'', 1 / 4), (''11'', 1 / 4)]"
proof -
  have "(1::int) \<le> 1" and "(1::int) < 2 ^ 1023 - 2 ^ 969" by simp_all
  from ship_final_distribution [OF this]
  have "zeno_final_distribution 1 True =
     Inr [(''00'', cos (pi / 4) ^ 4), (''01'', (cos (pi / 4) * sin (pi / 4))\<^sup>2),
          (''10'', sin (pi / 4) ^ 4), (''11'', (cos (pi / 4) * sin (pi / 4))\<^sup>2)]"
    by simp
  then show ?thesis
    by (simp only: quarter_pi_powers)
qed


section \<open>Normalization\<close>







section \<open>Runs in finite precision\<close>























lemma rounded_run_length:
  assumes "rounded_run eps reg gs rs"
  shows "length rs = length gs"
  using assms
proof (induction gs arbitrary: reg rs)
  case Nil
  then show ?case by simp
next
  case (Cons g gs)
  then show ?case by (cases rs) auto
qed



























lemma rounded_run_append:
  assumes "rounded_run eps reg gs rs" and "rounded_run eps (last (reg # rs)) gs' rs'"
  shows "rounded_run eps reg (gs @ gs') (rs @ rs')"
  using assms
proof (induction eps reg gs rs rule: rounded_run.induct)
  case (1 eps reg rs)
  then show ?case by simp
next
  case (2 eps reg g gs)
  then show ?case by simp
next
  case (3 eps reg g gs r rs)
  then show ?case by simp
qed

lemma l2_real_pair:
  assumes "0 \<le> k"
  shows "l2 [complex_of_real (k * cos x), complex_of_real (k * sin x)] = k"
proof -
  have t: "(cos x)\<^sup>2 + (sin x)\<^sup>2 = 1"
    by simp
  have "(k * cos x)\<^sup>2 + (k * sin x)\<^sup>2 = k\<^sup>2"
    using t by algebra
  then have "sqrt ((k * cos x)\<^sup>2 + (k * sin x)\<^sup>2) = k"
    using assms by simp
  then show ?thesis
    by (simp add: l2_def norm_mult power_mult_distrib del: of_real_mult)
qed

lemma l2_real_single:
  assumes "0 \<le> k"
  shows "l2 [complex_of_real k, 0] = k"
  using assms by (simp add: l2_def)

lemma dud_inflate_pair:
  assumes e: "0 \<le> eps" and s: "0 \<le> s"
  shows "rounded_run eps \<lparr>nqubits = 1, amplitudes = [complex_of_real s, 0]\<rparr>
      [RY theta 0, RY (- theta) 0]
      [\<lparr>nqubits = 1, amplitudes = [complex_of_real ((1 + eps) * s * cos (theta / 2)),
                                      complex_of_real ((1 + eps) * s * sin (theta / 2))]\<rparr>,
       \<lparr>nqubits = 1, amplitudes = [complex_of_real ((1 + eps)\<^sup>2 * s), 0]\<rparr>]"
proof -
  let ?c = "cos (theta / 2)" and ?n = "sin (theta / 2)"
  have a1: "apply_gate \<lparr>nqubits = 1, amplitudes = [complex_of_real s, 0]\<rparr> (RY theta 0)
      = Inr \<lparr>nqubits = 1, amplitudes = [complex_of_real (s * ?c), complex_of_real (s * ?n)]\<rparr>"
    by (simp add: engine_simps algebra_simps)
  have a2: "apply_gate \<lparr>nqubits = 1, amplitudes = [complex_of_real ((1 + eps) * s * ?c),
                complex_of_real ((1 + eps) * s * ?n)]\<rparr> (RY (- theta) 0)
      = Inr \<lparr>nqubits = 1, amplitudes = [complex_of_real ((1 + eps) * s), 0]\<rparr>"
  proof -
    have t: "?c\<^sup>2 + ?n\<^sup>2 = 1"
      by simp
    have x: "?c * ((1 + eps) * s * ?c) + ?n * ((1 + eps) * s * ?n) = (1 + eps) * s"
      using t by algebra
    have y: "?c * ((1 + eps) * s * ?n) - ?n * ((1 + eps) * s * ?c) = 0"
      by (simp add: algebra_simps)
    have x': "complex_of_real ?c * complex_of_real ((1 + eps) * s * ?c)
        + complex_of_real ?n * complex_of_real ((1 + eps) * s * ?n)
        = complex_of_real ((1 + eps) * s)"
      using x by (metis of_real_add of_real_mult)
    have y': "complex_of_real ?c * complex_of_real ((1 + eps) * s * ?n)
        - complex_of_real ?n * complex_of_real ((1 + eps) * s * ?c) = 0"
      using y by (metis of_real_diff of_real_mult of_real_0)
    show ?thesis
      using x' y' by (simp add: engine_simps del: of_real_mult of_real_add)
  qed
  have d1: "l2 (map2 (-) [complex_of_real ((1 + eps) * s * ?c), complex_of_real ((1 + eps) * s * ?n)]
                 [complex_of_real (s * ?c), complex_of_real (s * ?n)])
      = eps * s"
  proof -
    have "l2 [complex_of_real ((eps * s) * ?c), complex_of_real ((eps * s) * ?n)] = eps * s"
      using e s by (intro l2_real_pair) simp
    moreover have "(1 + eps) * s * ?c - s * ?c = (eps * s) * ?c"
      "(1 + eps) * s * ?n - s * ?n = (eps * s) * ?n"
      by (simp_all add: algebra_simps)
    ultimately show ?thesis
      by (simp del: of_real_mult of_real_add add: of_real_diff [symmetric])
  qed
  have d2: "l2 (map2 (-) [complex_of_real ((1 + eps)\<^sup>2 * s), 0]
                 [complex_of_real ((1 + eps) * s), 0])
      = eps * ((1 + eps) * s)"
  proof -
    have "l2 [complex_of_real (eps * ((1 + eps) * s)), 0] = eps * ((1 + eps) * s)"
      using e s by (intro l2_real_single) simp
    moreover have "(1 + eps)\<^sup>2 * s - (1 + eps) * s = eps * ((1 + eps) * s)"
      by (simp add: power2_eq_square algebra_simps)
    ultimately show ?thesis
      by (simp del: of_real_mult of_real_add of_real_power add: of_real_diff [symmetric])
  qed
  have n1: "l2 [complex_of_real s, 0] = s"
    using s by (rule l2_real_single)
  have n2: "l2 [complex_of_real ((1 + eps) * s * ?c), complex_of_real ((1 + eps) * s * ?n)]
      = (1 + eps) * s"
    using e s by (intro l2_real_pair) simp
  have g1: "rounded_gate eps \<lparr>nqubits = 1, amplitudes = [complex_of_real s, 0]\<rparr> (RY theta 0)
      \<lparr>nqubits = 1, amplitudes = [complex_of_real ((1 + eps) * s * ?c),
                                    complex_of_real ((1 + eps) * s * ?n)]\<rparr>"
    unfolding rounded_gate_def a1 by (simp only: sum.case register.simps d1 n1) simp
  have g2: "rounded_gate eps \<lparr>nqubits = 1, amplitudes = [complex_of_real ((1 + eps) * s * ?c),
                complex_of_real ((1 + eps) * s * ?n)]\<rparr> (RY (- theta) 0)
      \<lparr>nqubits = 1, amplitudes = [complex_of_real ((1 + eps)\<^sup>2 * s), 0]\<rparr>"
    unfolding rounded_gate_def a2 by (simp only: sum.case register.simps d2 n2) simp
  show ?thesis
    using g1 g2 by (simp only: rounded_run.simps simp_thms)
qed


lemma dud_inflate:
  assumes e: "0 \<le> eps" and s: "0 \<le> s"
  shows "\<exists>rs. rounded_run eps \<lparr>nqubits = 1, amplitudes = [complex_of_real s, 0]\<rparr>
        (concat (replicate n [RY theta 0, RY (- theta) 0])) rs
    \<and> last (\<lparr>nqubits = 1, amplitudes = [complex_of_real s, 0]\<rparr> # rs)
        = \<lparr>nqubits = 1, amplitudes = [complex_of_real ((1 + eps) ^ (2 * n) * s), 0]\<rparr>"
  using s
proof (induction n arbitrary: s)
  case 0
  have "rounded_run eps \<lparr>nqubits = 1, amplitudes = [complex_of_real s, 0]\<rparr> [] []"
    by simp
  then show ?case
    by (intro exI [of _ "[]"]) simp
next
  case (Suc n)
  let ?r0 = "\<lparr>nqubits = 1, amplitudes = [complex_of_real s, 0]\<rparr>"
  let ?r1 = "\<lparr>nqubits = 1, amplitudes = [complex_of_real ((1 + eps) * s * cos (theta / 2)),
                                      complex_of_real ((1 + eps) * s * sin (theta / 2))]\<rparr>"
  let ?r2 = "\<lparr>nqubits = 1, amplitudes = [complex_of_real ((1 + eps)\<^sup>2 * s), 0]\<rparr>"
  have first: "rounded_run eps ?r0 [RY theta 0, RY (- theta) 0] [?r1, ?r2]"
    using e Suc.prems by (rule dud_inflate_pair)
  have "0 \<le> (1 + eps)\<^sup>2 * s"
    using e Suc.prems by simp
  from Suc.IH [OF this] obtain rs where
    rest: "rounded_run eps ?r2 (concat (replicate n [RY theta 0, RY (- theta) 0])) rs"
    and fin: "last (?r2 # rs)
      = \<lparr>nqubits = 1, amplitudes = [complex_of_real ((1 + eps) ^ (2 * n) * ((1 + eps)\<^sup>2 * s)), 0]\<rparr>"
    by blast
  have l: "last (?r0 # [?r1, ?r2]) = ?r2"
    by simp
  have run: "rounded_run eps ?r0
      ([RY theta 0, RY (- theta) 0] @ concat (replicate n [RY theta 0, RY (- theta) 0]))
      ([?r1, ?r2] @ rs)"
    using first by (rule rounded_run_append) (simp only: l rest)
  have p: "(1 + eps) ^ (2 * n) * ((1 + eps)\<^sup>2 * s) = (1 + eps) ^ (2 * Suc n) * s"
    by (simp add: power_add power2_eq_square)
  have "last (?r0 # ([?r1, ?r2] @ rs)) = last (?r2 # rs)"
    by simp
  with fin have fin': "last (?r0 # ([?r1, ?r2] @ rs))
      = \<lparr>nqubits = 1, amplitudes = [complex_of_real ((1 + eps) ^ (2 * Suc n) * s), 0]\<rparr>"
    by (simp only: p)
  have c: "concat (replicate (Suc n) [RY theta 0, RY (- theta) 0])
      = [RY theta 0, RY (- theta) 0] @ concat (replicate n [RY theta 0, RY (- theta) 0])"
    by simp
  show ?case
    unfolding c using run fin' by blast
qed

text \<open>
  The statements about rounded runs bound the repetition count, and the bound cannot be
  dropped: errors of the allowed size that all point the same way take the norm out of
  the tolerance.  At the count 500000 the circuit of an empty square has a run, within
  \<open>1e-15\<close> at every gate, whose final register \<open>final_distribution\<close> refuses as
  unnormalized.
\<close>

lemma rounding_needs_bounded_count:
  "\<exists>qc rs. build_zeno_circuit 500000 False = Inr qc
     \<and> rounded_run (1 / 10 ^ 15) (init_register (num_qubits qc)) (gates qc) rs
     \<and> final_distribution (last (init_register (num_qubits qc) # rs)) = Inl UnnormalizedState"
proof -
  let ?theta = "pi / (2 * real_of_int 500000)"
  let ?qc = "\<lparr>num_qubits = 1, num_clbits = 1,
         gates = concat (replicate (nat 500000) [RY ?theta 0, RY (- ?theta) 0]),
         measures = [(0, 0)]\<rparr>"
  let ?k = "(1 + 1 / 10 ^ 15 :: real) ^ (2 * nat 500000) * 1"
  have b: "build_zeno_circuit 500000 False = Inr ?qc"
    by (rule build_dud) simp_all
  have i: "init_register 1 = \<lparr>nqubits = 1, amplitudes = [complex_of_real 1, 0]\<rparr>"
    by (simp only: init_register_1 of_real_1)
  from dud_inflate [of "1 / 10 ^ 15" 1 "nat 500000" ?theta]
  obtain rs where
    run: "rounded_run (1 / 10 ^ 15) \<lparr>nqubits = 1, amplitudes = [complex_of_real 1, 0]\<rparr>
        (concat (replicate (nat 500000) [RY ?theta 0, RY (- ?theta) 0])) rs"
    and fin: "last (\<lparr>nqubits = 1, amplitudes = [complex_of_real 1, 0]\<rparr> # rs)
        = \<lparr>nqubits = 1, amplitudes = [complex_of_real ?k, 0]\<rparr>"
    by auto
  define k where "k = ?k"
  have "1 + real (2 * nat 500000) * (1 / 10 ^ 15) \<le> (1 + 1 / 10 ^ 15 :: real) ^ (2 * nat 500000)"
    by (rule Bernoulli_inequality) simp
  then have k1: "1 + 1 / 10 ^ 9 \<le> k"
    unfolding k_def by simp
  have "(1 + 1 / 10 ^ 9) * (1 + 1 / 10 ^ 9) \<le> k * k"
    using k1 by (intro mult_mono) simp_all
  moreover have "(1 + 1 / 10 ^ 9 :: real) < (1 + 1 / 10 ^ 9) * (1 + 1 / 10 ^ 9)"
    by simp
  ultimately have k2: "1 + 1 / 10 ^ 9 < k\<^sup>2"
    by (simp only: power2_eq_square)
  have "0 \<le> k"
    using k1 by simp
  then have "(cmod (complex_of_real k))\<^sup>2 = k\<^sup>2"
    by (simp only: norm_of_real abs_of_nonneg)
  with k2 have big: "1 / 10 ^ 9 < \<bar>(cmod (complex_of_real k))\<^sup>2 + (cmod (0::complex))\<^sup>2 - 1\<bar>"
    by simp
  have "final_distribution \<lparr>nqubits = 1, amplitudes = [complex_of_real k, 0]\<rparr>
      = Inl UnnormalizedState"
    using big by (simp only: final_distribution_def Let_def register.simps list.map sum_list.Cons
        sum_list.Nil add_0_right if_True)
  then have fd: "final_distribution \<lparr>nqubits = 1, amplitudes = [complex_of_real ?k, 0]\<rparr>
      = Inl UnnormalizedState"
    by (simp only: k_def)
  have "rounded_run (1 / 10 ^ 15) (init_register (num_qubits ?qc)) (gates ?qc) rs
     \<and> final_distribution (last (init_register (num_qubits ?qc) # rs)) = Inl UnnormalizedState"
    using run fin fd by (simp only: circuit.simps i simp_thms)
  with b show ?thesis
    by blast
qed

section \<open>The empty square\<close>




section \<open>The outcome 10 of an occupied square\<close>



section \<open>Normalization after every gate\<close>




section \<open>Suppression with many repetitions\<close>






section \<open>The rotation and its inverse\<close>

text \<open>
  In exact arithmetic the product of the rotation matrix at \<open>a\<close> and the rotation
  matrix at \<open>- a\<close> is the 2x2 identity matrix, because \<open>cos\<^sup>2 + sin\<^sup>2 = 1\<close>.  The
  law of the gate library is about matrices of double-precision numbers, whose
  products are rounded; that rounding has no counterpart here, so this lemma says
  nothing about whether the rounded product is exactly the identity.
\<close>

lemma rotation_inverse_exact:
  "mat_mul (rotation_matrix a) (rotation_matrix (- a)) = identity_matrix 2
   \<and> rotation_matrix a =
       [[complex_of_real (cos (a / 2)), complex_of_real (- sin (a / 2))],
        [complex_of_real (sin (a / 2)), complex_of_real (cos (a / 2))]]"
proof -
  have "mat_mul (rotation_matrix a) (rotation_matrix (- a))
      = [[complex_of_real (cos (a / 2)) * complex_of_real (cos (a / 2))
            + complex_of_real (sin (a / 2)) * complex_of_real (sin (a / 2)), 0],
         [0, complex_of_real (cos (a / 2)) * complex_of_real (cos (a / 2))
            + complex_of_real (sin (a / 2)) * complex_of_real (sin (a / 2))]]"
    by (simp add: mat_mul_def rotation_matrix_def)
  also have "\<dots> = identity_matrix 2"
    by (simp only: cos_sin_complex) (simp add: identity_matrix_def upt2)
  finally show ?thesis
    by (simp add: rotation_matrix_def)
qed

section \<open>Parsing never raises\<close>

lemma parse_input_try_range:
  assumes "parse_input_try upper int_of user_in = Inr (row, col)"
  shows "0 \<le> row \<and> row < 4 \<and> 0 \<le> col \<and> col < 4"
  using assms
  by (auto simp: parse_input_try_def Let_def split: sum.splits option.splits if_splits)

text \<open>
  C10.  For every input string, \<open>parse_input\<close> returns either \<open>(None, None)\<close> or a
  pair \<open>(row, col)\<close> of integers with \<open>0 \<le> row < 4\<close> and \<open>0 \<le> col < 4\<close>; no
  exception reaches the caller, whatever the input (empty, one character, coordinates
  out of range) and whatever the Unicode tables say.
\<close>

theorem parse_input_total:
  "parse_input upper int_of user_in = Inr (None, None)
   \<or> (\<exists>row col. parse_input upper int_of user_in = Inr (Some row, Some col)
        \<and> 0 \<le> row \<and> row < 4 \<and> 0 \<le> col \<and> col < 4)"
proof (cases "parse_input_try upper int_of user_in")
  case (Inl e)
  then show ?thesis by (simp add: parse_input_def)
next
  case (Inr rc)
  obtain row col where rc: "rc = (row, col)" by (cases rc)
  from Inr parse_input_try_range [of upper int_of user_in row col]
  have "0 \<le> row \<and> row < 4 \<and> 0 \<le> col \<and> col < 4"
    by (simp add: rc)
  with Inr show ?thesis by (simp add: parse_input_def rc)
qed

lemma parse_input_B3: "parse_input ascii_upper ascii_int [98, 51] = Inr (Some 2, Some 1)"
  by (simp add: parse_input_def parse_input_try_def getitem_def py_ord_def ascii_upper_def
      ascii_int_def)

lemma parse_input_empty: "parse_input ascii_upper ascii_int [] = Inr (None, None)"
  by (simp add: parse_input_def parse_input_try_def getitem_def)

lemma parse_input_E1: "parse_input ascii_upper ascii_int [69, 49] = Inr (None, None)"
  by (simp add: parse_input_def parse_input_try_def getitem_def py_ord_def ascii_upper_def
      ascii_int_def)

end
